theory Spec2Isabelle
  imports Complex_Main
begin

section \<open>Python strings\<close>

text \<open>
  A Python \<open>str\<close> is modelled as a \<^typ>\<open>string\<close>, one \<^typ>\<open>char\<close> per code point;
  the model therefore covers the code points below 256. \<open>len\<close> is \<^const>\<open>length\<close>,
  a slice \<open>s[a:b]\<close> with \<open>0 \<le> a \<le> b\<close> is \<open>take (b - a) (drop a s)\<close>.
\<close>

definition newline :: char where
  "newline = CHR 0x0A"

text \<open>\<open>str.isspace\<close> on one code point below 256.\<close>

definition is_space :: "char \<Rightarrow> bool" where
  "is_space c = (of_char c \<in> {9, 10, 11, 12, 13, 28, 29, 30, 31, 32, 133, 160 :: nat})"

text \<open>\<open>s.strip()\<close>: whitespace removed at both ends.\<close>

definition strip :: "string \<Rightarrow> string" where
  "strip s = rev (dropWhile is_space (rev (dropWhile is_space s)))"

text \<open>\<open>s.startswith(p)\<close>.\<close>

definition startswith :: "string \<Rightarrow> string \<Rightarrow> bool" where
  "startswith s p = (take (length p) s = p)"

text \<open>\<open>s.count(c)\<close> for a one-character needle.\<close>

definition count_char :: "string \<Rightarrow> char \<Rightarrow> int" where
  "count_char s c = int (length (filter (\<lambda>x. x = c) s))"

text \<open>\<open>s.split('\n')\<close>: never empty, \<open>''.split('\n') = ['']\<close>.\<close>

fun split_nl :: "string \<Rightarrow> string list" where
  "split_nl [] = [[]]"
| "split_nl (c # cs) =
     (if c = newline then [] # split_nl cs
      else (case split_nl cs of
              [] \<Rightarrow> [[c]]
            | l # ls \<Rightarrow> (c # l) # ls))"

text \<open>\<open>'\n'.join(xs)\<close>.\<close>

fun join_nl :: "string list \<Rightarrow> string" where
  "join_nl [] = []"
| "join_nl [l] = l"
| "join_nl (l # ls) = l @ newline # join_nl ls"


section \<open>\<open>swift-app/fix_previews.py\<close>: \<open>fix_preview\<close>\<close>

text \<open>The test of line 10: \<open>line.strip().startswith('#Preview')\<close>.\<close>

definition is_preview_line :: "string \<Rightarrow> bool" where
  "is_preview_line line = startswith (strip line) ''#Preview''"

text \<open>
  The inner \<open>while\<close> of lines 14 to 21, started at index \<open>i\<close> with the result list, the
  brace count and the flag \<open>started\<close>; it returns the index at which it stopped (the
  index of the line where it broke off, or \<open>len(lines)\<close>) and the result list.
\<close>

function preview_block ::
  "string list \<Rightarrow> nat \<Rightarrow> string list \<Rightarrow> int \<Rightarrow> bool \<Rightarrow> nat \<times> string list" where
  "preview_block lines i result brace_count started =
     (if i < length lines then
        (let result' = result @ [lines ! i];
             brace_count' = brace_count
                + (count_char (lines ! i) (CHR ''{'') - count_char (lines ! i) (CHR ''}''));
             started' = (started \<or> CHR ''{'' \<in> set (lines ! i))
         in if started' \<and> brace_count' = 0 then (i, result')
            else preview_block lines (i + 1) result' brace_count' started')
      else (i, result))"
  by pat_completeness auto
termination
  by (relation "measure (\<lambda>(lines, i, result, brace_count, started). length lines - i)") auto

lemma preview_block_index:
  "i \<le> fst (preview_block lines i result brace_count started)"
proof (induction lines i result brace_count started rule: preview_block.induct)
  case (1 lines i result brace_count started)
  show ?case
  proof (cases "i < length lines")
    case False
    then show ?thesis by simp
  next
    case True
    let ?b = "brace_count
        + (count_char (lines ! i) (CHR ''{'') - count_char (lines ! i) (CHR ''}''))"
    let ?s = "started \<or> CHR ''{'' \<in> set (lines ! i)"
    show ?thesis
    proof (cases "?s \<and> ?b = 0")
      case True
      with \<open>i < length lines\<close> show ?thesis
        by (subst preview_block.simps) (simp add: Let_def)
    next
      case False
      with \<open>i < length lines\<close> "1.IH"[OF \<open>i < length lines\<close> refl refl refl False]
      show ?thesis
        by (subst preview_block.simps) (simp add: Let_def)
    qed
  qed
qed

text \<open>The outer \<open>while\<close> of lines 8 to 25, from index \<open>i\<close> with the result list so far.\<close>

function fix_loop :: "string list \<Rightarrow> nat \<Rightarrow> string list \<Rightarrow> string list" where
  "fix_loop lines i result =
     (if i < length lines then
        (let line = lines ! i
         in if is_preview_line line then
              (case preview_block lines i (result @ [''#if false'']) 0 False of
                 (i', result') \<Rightarrow> fix_loop lines (i' + 1) (result' @ [''#endif'']))
            else fix_loop lines (i + 1) (result @ [line]))
      else result)"
  by pat_completeness auto
termination
proof (relation "measure (\<lambda>(lines, i, result). length lines - i)", goal_cases)
  case 1
  show ?case by simp
next
  case (2 lines i result line pr i')
  have "i \<le> fst (preview_block lines i (result @ [''#if false'']) 0 False)"
    by (rule preview_block_index)
  with 2 show ?case by (cases "preview_block lines i (result @ [''#if false'']) 0 False") auto
next
  case 3
  then show ?case by simp
qed

declare preview_block.simps [simp del] fix_loop.simps [simp del]

definition fix_preview :: "string \<Rightarrow> string" where
  "fix_preview content = join_nl (fix_loop (split_nl content) 0 [])"


section \<open>\<open>scripts/phase6b_remove_balance_methods.py\<close>: \<open>remove_method\<close>\<close>

text \<open>The exception of the pattern language.\<close>

datatype py_error = ReError

text \<open>
  \<open>re.search(pattern, content)\<close> is the library's, not the repository's: it is a
  parameter of the model. Given the source text of a pattern and the content it answers
  \<open>Inl ReError\<close> when the pattern does not compile (\<open>re.error\<close>),
  \<open>Inr None\<close> when nothing matches, and \<open>Inr (Some i)\<close> with \<open>i = match.start()\<close>
  otherwise. \<open>remove_method\<close> reads nothing else of the match.
\<close>

type_synonym searcher = "string \<Rightarrow> string \<Rightarrow> py_error + nat option"

definition backslash :: char where
  "backslash = CHR 0x5C"

text \<open>
  The list \<open>patterns\<close> of lines 56 to 59: two raw f-strings, with the method name put in
  as it is (so a name with a metacharacter of the pattern language changes the pattern).
\<close>

definition patterns :: "string \<Rightarrow> string list" where
  "patterns method_name =
     [ [backslash, CHR ''n''] @ ''    @MainActor'' @ [backslash, CHR ''n'']
         @ ''    private func '' @ method_name @ [backslash, CHR ''(''],
       [backslash, CHR ''n''] @ ''    private func '' @ method_name @ [backslash, CHR ''(''] ]"

text \<open>
  The \<open>for\<close> loop of lines 70 to 78 over \<open>enumerate(content[start_idx:], start_idx)\<close>: the
  characters still to read, the index \<open>i\<close> of the first of them, \<open>brace_count\<close> and
  \<open>in_method\<close>. \<open>Some end_idx\<close> when the loop breaks, \<open>None\<close> when it runs to the end.
\<close>

fun find_close :: "string \<Rightarrow> nat \<Rightarrow> int \<Rightarrow> bool \<Rightarrow> nat option" where
  "find_close [] i brace_count in_method = None"
| "find_close (char # rest) i brace_count in_method =
     (if char = CHR ''{'' then find_close rest (i + 1) (brace_count + 1) True
      else if char = CHR ''}'' then
        (if in_method \<and> brace_count - 1 = 0 then Some (i + 1)
         else find_close rest (i + 1) (brace_count - 1) in_method)
      else find_close rest (i + 1) brace_count in_method)"

text \<open>
  The loop over the patterns (lines 61 to 84), and the final \<open>return content\<close> of line 86
  when no pattern led to a removal.
\<close>

fun try_patterns :: "searcher \<Rightarrow> string \<Rightarrow> string list \<Rightarrow> py_error + string" where
  "try_patterns re_search content [] = Inr content"
| "try_patterns re_search content (start_pat # pats) =
     (case re_search start_pat content of
        Inl e \<Rightarrow> Inl e
      | Inr None \<Rightarrow> try_patterns re_search content pats
      | Inr (Some start_idx) \<Rightarrow>
          (let end_idx = (case find_close (drop start_idx content) start_idx 0 False of
                            None \<Rightarrow> start_idx
                          | Some e \<Rightarrow> e)
           in if end_idx > start_idx
              then Inr (take start_idx content @ drop end_idx content)
              else try_patterns re_search content pats))"

definition remove_method :: "searcher \<Rightarrow> string \<Rightarrow> string \<Rightarrow> py_error + string" where
  "remove_method re_search content method_name =
     try_patterns re_search content (patterns method_name)"

text \<open>
  An instance of \<open>re.search\<close> for running the model: the patterns in which every character
  stands for itself, apart from the escapes \<open>\n\<close> (a newline) and \<open>\(\<close> (a parenthesis).
  The patterns of \<open>remove_method\<close> are of this kind for a method name without
  metacharacters, as are all the names in the script's list \<open>methods_to_remove\<close>. This
  instance refuses every other pattern with \<open>Inl ReError\<close>, also those the library would
  compile.
\<close>

definition metachars :: "char set" where
  "metachars = set ''.^$*+?{}[]|()'' \<union> {backslash}"

fun regex_literal :: "string \<Rightarrow> string option" where
  "regex_literal [] = Some []"
| "regex_literal [c] = (if c \<in> metachars then None else Some [c])"
| "regex_literal (c # d # cs) =
     (if c = backslash then
        (if d = CHR ''n'' then map_option ((#) newline) (regex_literal cs)
         else if d = CHR ''('' then map_option ((#) (CHR ''('')) (regex_literal cs)
         else None)
      else if c \<in> metachars then None
      else map_option ((#) c) (regex_literal (d # cs)))"

text \<open>The index of the leftmost occurrence of a text in another.\<close>

fun find_sub :: "string \<Rightarrow> string \<Rightarrow> nat option" where
  "find_sub pat [] = (if pat = [] then Some 0 else None)"
| "find_sub pat (c # cs) =
     (if startswith (c # cs) pat then Some 0 else map_option Suc (find_sub pat cs))"

definition re_search_literal :: searcher where
  "re_search_literal pattern content =
     (case regex_literal pattern of
        None \<Rightarrow> Inl ReError
      | Some lit \<Rightarrow> Inr (find_sub lit content))"

text \<open>A small Swift text to run the model on.\<close>

definition swift_sample :: string where
  "swift_sample = ''struct V {'' @ [newline] @ ''    private func foo(x: Int) {'' @ [newline]
     @ ''        if x { y }'' @ [newline] @ ''    }'' @ [newline] @ ''}''"


section \<open>\<open>scripts/contrast_check.py\<close>: \<open>hex_to_rgb\<close>, \<open>luminance\<close>, \<open>contrast_ratio\<close>\<close>

text \<open>
  The exceptions of this script: \<open>ValueError\<close> from \<open>int(s, 16)\<close>, with the text that was
  refused (the exception's message quotes it), and \<open>ZeroDivisionError\<close> from a float
  division.
\<close>

datatype calc_error = ValueError string | ZeroDivisionError

subsection \<open>\<open>int(s, 16)\<close>\<close>

definition hex_digit :: "char \<Rightarrow> int option" where
  "hex_digit c =
     (let n = (of_char c :: nat)
      in if 48 \<le> n \<and> n \<le> 57 then Some (int n - 48)
         else if 97 \<le> n \<and> n \<le> 102 then Some (int n - 87)
         else if 65 \<le> n \<and> n \<le> 70 then Some (int n - 55)
         else None)"

text \<open>
  The digits of a literal, most significant first, onto the value read so far. One
  underscore may stand between two digits, never at the end.
\<close>

fun hex_digits_value :: "string \<Rightarrow> int \<Rightarrow> int option" where
  "hex_digits_value [] acc = Some acc"
| "hex_digits_value [c] acc = map_option (\<lambda>v. 16 * acc + v) (hex_digit c)"
| "hex_digits_value (c # d # cs) acc =
     (if c = CHR ''_'' then
        (case hex_digit d of
           None \<Rightarrow> None
         | Some v \<Rightarrow> hex_digits_value cs (16 * acc + v))
      else
        (case hex_digit c of
           None \<Rightarrow> None
         | Some v \<Rightarrow> hex_digits_value (d # cs) (16 * acc + v)))"

text \<open>
  \<open>int(s, 16)\<close>: white space around the literal is dropped, then come an optional sign,
  an optional prefix \<open>0x\<close> or \<open>0X\<close> (after which one underscore is allowed) and at least
  one digit.
\<close>

definition py_int16 :: "string \<Rightarrow> calc_error + int" where
  "py_int16 s =
     (let t = strip s;
          negative = (t \<noteq> [] \<and> hd t = CHR ''-'');
          u = (if t \<noteq> [] \<and> (hd t = CHR ''+'' \<or> hd t = CHR ''-'') then tl t else t);
          v = (if startswith u ''0x'' \<or> startswith u ''0X''
               then (if startswith (drop 2 u) ''_'' then drop 3 u else drop 2 u)
               else u)
      in if v = [] \<or> hd v = CHR ''_'' then Inl (ValueError s)
         else (case hex_digits_value v 0 of
                 None \<Rightarrow> Inl (ValueError s)
               | Some n \<Rightarrow> Inr (if negative then - n else n)))"

subsection \<open>\<open>hex_to_rgb\<close>\<close>

text \<open>
  \<open>hex_color.lstrip('#')\<close>, then the three slices \<open>[0:2]\<close>, \<open>[2:4]\<close>, \<open>[4:6]\<close> read in this
  order; the first that \<open>int\<close> refuses raises.
\<close>

definition hex_to_rgb :: "string \<Rightarrow> calc_error + (int \<times> int \<times> int)" where
  "hex_to_rgb hex_color =
     (let h = dropWhile (\<lambda>c. c = CHR ''#'') hex_color
      in case py_int16 (take 2 h) of
           Inl e \<Rightarrow> Inl e
         | Inr r \<Rightarrow>
             (case py_int16 (take 2 (drop 2 h)) of
                Inl e \<Rightarrow> Inl e
              | Inr g \<Rightarrow>
                  (case py_int16 (take 2 (drop 4 h)) of
                     Inl e \<Rightarrow> Inl e
                   | Inr b \<Rightarrow> Inr (r, g, b))))"

subsection \<open>Floats\<close>

text \<open>
  A Python \<open>float\<close> is an IEEE double, and every operation on floats rounds. The model does
  not fix the rounding: the float operations the script uses are a parameter, a record of
  functions on a linearly ordered type of float values (no operation of the script yields
  a NaN on the values it meets). \<open>lit\<close> reads a decimal literal of the source,
  \<open>int_div\<close> is the true division \<open>/\<close> of two integers, \<open>add\<close>, \<open>mul\<close> and \<open>fdiv\<close> are
  \<open>+\<close>, \<open>*\<close> and \<open>/\<close> on floats, \<open>pow\<close> is \<open>**\<close>.
\<close>

record 'f float_arith =
  lit :: "rat \<Rightarrow> 'f"
  int_div :: "int \<Rightarrow> int \<Rightarrow> 'f"
  add :: "'f \<Rightarrow> 'f \<Rightarrow> 'f"
  mul :: "'f \<Rightarrow> 'f \<Rightarrow> 'f"
  fdiv :: "'f \<Rightarrow> 'f \<Rightarrow> 'f"
  pow :: "'f \<Rightarrow> 'f \<Rightarrow> 'f"

text \<open>The instance without rounding: the real numbers.\<close>

definition exact_arith :: "real float_arith" where
  "exact_arith =
     \<lparr> lit = real_of_rat,
       int_div = (\<lambda>a b. real_of_int a / real_of_int b),
       add = (+), mul = (*), fdiv = (/), pow = (powr) \<rparr>"

text \<open>The built-in \<open>max\<close> and \<open>min\<close> of two arguments: the first of them on a tie.\<close>

definition py_max :: "'f::linorder \<Rightarrow> 'f \<Rightarrow> 'f" where
  "py_max a b = (if b > a then b else a)"

definition py_min :: "'f::linorder \<Rightarrow> 'f \<Rightarrow> 'f" where
  "py_min a b = (if b < a then b else a)"

subsection \<open>\<open>luminance\<close> and \<open>contrast_ratio\<close>\<close>

definition channel :: "'f::linorder float_arith \<Rightarrow> int \<Rightarrow> 'f" where
  "channel fa c0 =
     (let c = int_div fa c0 255
      in if c \<le> lit fa 0.03928 then fdiv fa c (lit fa 12.92)
         else pow fa (fdiv fa (add fa c (lit fa 0.055)) (lit fa 1.055)) (lit fa 2.4))"

definition luminance :: "'f::linorder float_arith \<Rightarrow> int \<Rightarrow> int \<Rightarrow> int \<Rightarrow> 'f" where
  "luminance fa r g b =
     add fa (add fa (mul fa (lit fa 0.2126) (channel fa r))
                    (mul fa (lit fa 0.7152) (channel fa g)))
            (mul fa (lit fa 0.0722) (channel fa b))"

text \<open>
  \<open>contrast_ratio\<close>: the two colours are read in turn, then the division of line 21, which
  raises when the divisor is zero.
\<close>

definition contrast_ratio ::
  "'f::linorder float_arith \<Rightarrow> string \<Rightarrow> string \<Rightarrow> calc_error + 'f" where
  "contrast_ratio fa color1 color2 =
     (case hex_to_rgb color1 of
        Inl e \<Rightarrow> Inl e
      | Inr (r1, g1, b1) \<Rightarrow>
          (case hex_to_rgb color2 of
             Inl e \<Rightarrow> Inl e
           | Inr (r2, g2, b2) \<Rightarrow>
               (let lum1 = luminance fa r1 g1 b1;
                    lum2 = luminance fa r2 g2 b2;
                    lighter = py_max lum1 lum2;
                    darker = py_min lum1 lum2
                in if add fa darker (lit fa 0.05) = lit fa 0 then Inl ZeroDivisionError
                   else Inr (fdiv fa (add fa lighter (lit fa 0.05))
                                     (add fa darker (lit fa 0.05))))))"

text \<open>The colours of the claim: six hexadecimal digits.\<close>

definition is_hex6 :: "string \<Rightarrow> bool" where
  "is_hex6 s = (length s = 6 \<and> list_all (\<lambda>c. hex_digit c \<noteq> None) s)"


section \<open>The balance engine the scripts wire in\<close>

text \<open>
  The scripts move the balance logic of the application (\<open>BalanceService\<close>, Swift) and
  name its state and methods; its code is not among the sources. The definitions of this
  part and of the next follow the specification of that engine, each marked as such.
\<close>

subsection \<open>Amount Normalizer\<close>

text \<open>
  Modelled from the spec: the type \<open>decimal\<close> of the Amount Normalizer, whose code is
  missing. An arbitrary-precision decimal: an unbounded integer \<open>unscaled\<close> and the number
  \<open>scale\<close> of fractional digits; it stands for \<open>unscaled / 10 ^ scale\<close>. Amounts are not
  negative: \<open>toDecimal\<close> accepts non-negative raw values only and the spec has no
  operation that yields a negative amount.
\<close>

record decimal =
  unscaled :: nat
  scale :: nat

definition dec_value :: "decimal \<Rightarrow> rat" where
  "dec_value d = of_nat (unscaled d) / 10 ^ scale d"

text \<open>
  Modelled from the spec: the raw representation handed to \<open>toDecimal\<close>
  (\<open>raw: string|integer\<close>) and its one error kind.
\<close>

datatype raw_amount = RawString string | RawInteger int

datatype amount_error = MalformedAmount

text \<open>
  Modelled from the spec: reading and writing the digits of a number in base ten or
  sixteen (the code is missing). Hexadecimal digits are read in both cases and written in
  lower case.
\<close>

definition digit_of_char :: "char \<Rightarrow> nat option" where
  "digit_of_char c =
     (let n = (of_char c :: nat)
      in if 48 \<le> n \<and> n \<le> 57 then Some (n - 48)
         else if 97 \<le> n \<and> n \<le> 102 then Some (n - 87)
         else if 65 \<le> n \<and> n \<le> 70 then Some (n - 55)
         else None)"

definition char_of_digit :: "nat \<Rightarrow> char" where
  "char_of_digit v = (if v < 16 then ''0123456789abcdef'' ! v else CHR ''?'')"

fun read_digits :: "nat \<Rightarrow> string \<Rightarrow> nat \<Rightarrow> nat option" where
  "read_digits base [] acc = Some acc"
| "read_digits base (c # cs) acc =
     (case digit_of_char c of
        None \<Rightarrow> None
      | Some v \<Rightarrow> if v < base then read_digits base cs (base * acc + v) else None)"

definition parse_number :: "nat \<Rightarrow> string \<Rightarrow> nat option" where
  "parse_number base s = (if s = [] then None else read_digits base s 0)"

function write_digits :: "nat \<Rightarrow> nat \<Rightarrow> string" where
  "write_digits base n =
     (if n < base \<or> base < 2 then [char_of_digit n]
      else write_digits base (n div base) @ [char_of_digit (n mod base)])"
  by pat_completeness auto
termination
  by (relation "measure (\<lambda>(base, n). n)") auto

declare write_digits.simps [simp del]

text \<open>
  Modelled from the spec: \<open>toDecimal(raw, decimals)\<close> (the code is missing). The raw
  amount is a non-negative integer, a string of decimal digits, or \<open>0x\<close> and hexadecimal
  digits; anything else is a \<open>MalformedAmount\<close>. The result is \<open>raw / 10 ^ decimals\<close>,
  kept exactly.
\<close>

definition parse_raw :: "raw_amount \<Rightarrow> amount_error + nat" where
  "parse_raw raw =
     (case raw of
        RawInteger i \<Rightarrow> if i < 0 then Inl MalformedAmount else Inr (nat i)
      | RawString s \<Rightarrow>
          (case (if startswith s ''0x'' then parse_number 16 (drop 2 s)
                 else parse_number 10 s) of
             None \<Rightarrow> Inl MalformedAmount
           | Some n \<Rightarrow> Inr n))"

definition toDecimal :: "raw_amount \<Rightarrow> nat \<Rightarrow> amount_error + decimal" where
  "toDecimal raw decimals =
     (case parse_raw raw of
        Inl e \<Rightarrow> Inl e
      | Inr n \<Rightarrow> Inr \<lparr> unscaled = n, scale = decimals \<rparr>)"

text \<open>
  Modelled from the spec: \<open>fromDecimal\<close>, the inverse of \<open>toDecimal\<close> (the code is
  missing). It gives the amount back as an integer of the unit \<open>10 ^ - decimals\<close>, and
  where the amount has more fractional digits than \<open>decimals\<close> it drops them (rounding
  toward zero).
\<close>

definition fromDecimal :: "decimal \<Rightarrow> nat \<Rightarrow> nat" where
  "fromDecimal d decimals = unscaled d * 10 ^ decimals div 10 ^ scale d"

text \<open>
  Modelled from the spec: \<open>formatAmount(value, decimals, maxFractionDigits)\<close> (the code
  is missing). The amount is cut to the smaller of \<open>decimals\<close> and \<open>maxFractionDigits\<close>
  fractional digits and written with a point, without grouping and without a locale.
\<close>

fun fixed_digits :: "nat \<Rightarrow> nat \<Rightarrow> string" where
  "fixed_digits 0 n = []"
| "fixed_digits (Suc k) n = fixed_digits k (n div 10) @ [char_of_digit (n mod 10)]"

definition formatAmount :: "decimal \<Rightarrow> nat \<Rightarrow> nat \<Rightarrow> string" where
  "formatAmount v decimals maxFractionDigits =
     (let k = min decimals maxFractionDigits;
          n = fromDecimal v k
      in write_digits 10 (n div 10 ^ k)
           @ (if k = 0 then [] else CHR ''.'' # fixed_digits k (n mod 10 ^ k)))"

text \<open>
  The number a rendered amount denotes: decimal digits, then possibly a point and more
  decimal digits.
\<close>

definition denoted :: "string \<Rightarrow> rat option" where
  "denoted s =
     (let ip = takeWhile (\<lambda>c. c \<noteq> CHR ''.'') s;
          rest = dropWhile (\<lambda>c. c \<noteq> CHR ''.'') s
      in case parse_number 10 ip of
           None \<Rightarrow> None
         | Some i \<Rightarrow>
             (if rest = [] then Some (of_nat i)
              else (case parse_number 10 (tl rest) of
                      None \<Rightarrow> None
                    | Some f \<Rightarrow> Some (of_nat i + of_nat f / 10 ^ length (tl rest)))))"


subsection \<open>Data model of the engine\<close>

text \<open>
  Modelled from the spec: the data model of section 3 (the Swift types are missing from
  the sources; the scripts only name the four maps \<open>balanceStates\<close>, \<open>cachedBalances\<close>,
  \<open>balanceBackoff\<close> and \<open>balanceFetchTasks\<close>). A timestamp is an integer, a duration a
  natural number, both in the same unit.
\<close>

datatype ChainKey = ChainKey (network: string) (asset: "string option")

datatype Status = Idle | Loading | Loaded | Failed

datatype ErrorKind =
  NetworkTimeout | RateLimited | MalformedResponse | MalformedAmountError
  | AllProvidersExhausted

record BalanceState =
  status :: Status
  balance :: "decimal option"
  lastUpdatedAt :: "int option"
  lastError :: "ErrorKind option"

record CachedBalance =
  cached :: decimal
  fetchedAt :: int
  ttl :: nat

record BackoffTracker =
  consecutiveFailures :: nat
  nextEligibleAt :: int
  currentInterval :: nat

text \<open>
  Modelled from the spec: the configuration of the engine. \<open>base\<close> and \<open>cap\<close> are the
  retry delays of section 4.3 (the growth factor is the 2 of its formula), \<open>cache_ttl\<close>
  the life time given to a cache entry, \<open>strategies\<close> the length of the fallback chain
  of a key and \<open>asset_decimals\<close> the precision of its asset.
\<close>

record config =
  base :: nat
  cap :: nat
  cache_ttl :: nat
  strategies :: "ChainKey \<Rightarrow> nat"
  asset_decimals :: "ChainKey \<Rightarrow> nat"

subsection \<open>Backoff Tracker\<close>

text \<open>
  Modelled from the spec: section 4.3 (the code is missing). A key without a tracker has
  not failed yet. \<open>onFailure\<close> counts the failure, sets \<open>currentInterval\<close> to
  \<open>min (base * 2 ^ consecutiveFailures) cap\<close> and \<open>nextEligibleAt\<close> to the interval after
  \<open>now\<close>, moved by a jitter between minus and plus a quarter of the interval; the random
  draw \<open>rnd\<close> is an argument. \<open>onSuccess\<close> resets the count to 0 and the interval to
  \<open>base\<close>.
\<close>

definition initial_tracker :: "config \<Rightarrow> int \<Rightarrow> BackoffTracker" where
  "initial_tracker cfg now =
     \<lparr> consecutiveFailures = 0, nextEligibleAt = now, currentInterval = base cfg \<rparr>"

definition tracker_of :: "config \<Rightarrow> (ChainKey \<rightharpoonup> BackoffTracker) \<Rightarrow> ChainKey \<Rightarrow> int
    \<Rightarrow> BackoffTracker" where
  "tracker_of cfg trackers key now =
     (case trackers key of None \<Rightarrow> initial_tracker cfg now | Some t \<Rightarrow> t)"

definition shouldAttempt :: "(ChainKey \<rightharpoonup> BackoffTracker) \<Rightarrow> ChainKey \<Rightarrow> int \<Rightarrow> bool" where
  "shouldAttempt trackers key now =
     (case trackers key of None \<Rightarrow> True | Some t \<Rightarrow> now \<ge> nextEligibleAt t)"

definition jitter :: "nat \<Rightarrow> nat \<Rightarrow> int" where
  "jitter interval rnd = int (rnd mod (2 * (interval div 4) + 1)) - int (interval div 4)"

definition onFailure :: "config \<Rightarrow> (ChainKey \<rightharpoonup> BackoffTracker) \<Rightarrow> ChainKey \<Rightarrow> int \<Rightarrow> nat
    \<Rightarrow> (ChainKey \<rightharpoonup> BackoffTracker)" where
  "onFailure cfg trackers key now rnd =
     (let t = tracker_of cfg trackers key now;
          failures = consecutiveFailures t + 1;
          interval = min (base cfg * 2 ^ failures) (cap cfg)
      in trackers(key \<mapsto>
           \<lparr> consecutiveFailures = failures,
             nextEligibleAt = now + int interval + jitter interval rnd,
             currentInterval = interval \<rparr>))"

definition onSuccess :: "config \<Rightarrow> (ChainKey \<rightharpoonup> BackoffTracker) \<Rightarrow> ChainKey \<Rightarrow> int
    \<Rightarrow> (ChainKey \<rightharpoonup> BackoffTracker)" where
  "onSuccess cfg trackers key now =
     (let t = tracker_of cfg trackers key now
      in trackers(key \<mapsto> t \<lparr> consecutiveFailures := 0, currentInterval := base cfg \<rparr>))"

text \<open>
  A run of consecutive failures of one key: \<open>onFailure\<close> once for each pair of a clock
  reading and a random draw.
\<close>

fun failures :: "config \<Rightarrow> (ChainKey \<rightharpoonup> BackoffTracker) \<Rightarrow> ChainKey \<Rightarrow> (int \<times> nat) list
    \<Rightarrow> (ChainKey \<rightharpoonup> BackoffTracker)" where
  "failures cfg trackers key [] = trackers"
| "failures cfg trackers key ((now, rnd) # rest) =
     failures cfg (onFailure cfg trackers key now rnd) key rest"

text \<open>The interval of a key, once it has a tracker.\<close>

definition interval_of :: "(ChainKey \<rightharpoonup> BackoffTracker) \<Rightarrow> ChainKey \<Rightarrow> nat option" where
  "interval_of trackers key = map_option currentInterval (trackers key)"

text \<open>A configuration and a key to run the model on.\<close>

definition sample_config :: config where
  "sample_config =
     \<lparr> base = 5, cap = 60, cache_ttl = 30, strategies = (\<lambda>k. 3), asset_decimals = (\<lambda>k. 8) \<rparr>"

definition btc :: ChainKey where
  "btc = ChainKey ''bitcoin'' None"

text \<open>The number of consecutive failures recorded for a key.\<close>

definition failure_count :: "(ChainKey \<rightharpoonup> BackoffTracker) \<Rightarrow> ChainKey \<Rightarrow> nat" where
  "failure_count trackers key =
     (case trackers key of None \<Rightarrow> 0 | Some t \<Rightarrow> consecutiveFailures t)"


section \<open>Properties of \<open>fix_preview\<close>\<close>

lemma split_nl_nonempty: "split_nl s \<noteq> []"
  by (induction s) (auto split: list.splits)

text \<open>Joining the lines of a text with the separator gives the text back.\<close>

lemma join_split_nl: "join_nl (split_nl s) = s"
proof (induction s)
  case Nil
  show ?case by simp
next
  case (Cons c cs)
  obtain l ls where sp: "split_nl cs = l # ls"
    using split_nl_nonempty [of cs] by (cases "split_nl cs") auto
  show ?case
  proof (cases "c = newline")
    case True
    with Cons sp show ?thesis by simp
  next
    case False
    with Cons sp show ?thesis by (cases ls) auto
  qed
qed

text \<open>
  From an index on from which no line is a preview line, the outer loop appends the
  remaining lines as they are.
\<close>

lemma fix_loop_plain:
  "(\<forall>j. i \<le> j \<and> j < length lines \<longrightarrow> \<not> is_preview_line (lines ! j))
   \<Longrightarrow> fix_loop lines i result = result @ drop i lines"
proof (induction lines i result rule: fix_loop.induct)
  case (1 lines i result)
  show ?case
  proof (cases "i < length lines")
    case False
    then show ?thesis by (subst fix_loop.simps) simp
  next
    case True
    with "1.prems" have np: "\<not> is_preview_line (lines ! i)" by simp
    from "1.prems" have rest:
      "\<forall>j. i + 1 \<le> j \<and> j < length lines \<longrightarrow> \<not> is_preview_line (lines ! j)" by simp
    have "fix_loop lines i result = fix_loop lines (i + 1) (result @ [lines ! i])"
      using True np by (subst fix_loop.simps) (simp add: Let_def)
    also have "\<dots> = (result @ [lines ! i]) @ drop (i + 1) lines"
      using "1.IH"(2) [OF True refl np rest] .
    also have "\<dots> = result @ drop i lines"
      using True by (simp add: Cons_nth_drop_Suc)
    finally show ?thesis .
  qed
qed

text \<open>
  The function does change a text that has a preview line: the block is put between
  \<open>#if false\<close> and \<open>#endif\<close>.
\<close>

lemma fix_preview_wraps:
  "fix_preview (''x'' @ [newline] @ ''  #Preview {'' @ [newline] @ ''}'' @ [newline] @ ''y'')
   = ''x'' @ [newline] @ ''#if false'' @ [newline] @ ''  #Preview {'' @ [newline] @ ''}''
      @ [newline] @ ''#endif'' @ [newline] @ ''y''"
  by code_simp

text \<open>
  Claim C9. \<open>fix_preview\<close> is the identity on every text none of whose lines, once
  stripped, starts with \<open>#Preview\<close>: the lines and their contents come back unchanged.
\<close>

theorem fix_preview_identity:
  assumes "\<forall>line \<in> set (split_nl s). \<not> is_preview_line line"
  shows "fix_preview s = s"
proof -
  have "\<forall>j. 0 \<le> j \<and> j < length (split_nl s) \<longrightarrow> \<not> is_preview_line (split_nl s ! j)"
    using assms by simp
  then have "fix_loop (split_nl s) 0 [] = split_nl s"
    using fix_loop_plain [of 0 "split_nl s" "[]"] by simp
  then show ?thesis by (simp add: fix_preview_def join_split_nl)
qed

theorem fix_preview_identity_witness:
  "list_all (\<lambda>line. \<not> is_preview_line line)
     (split_nl (''struct A {}'' @ [newline] @ ''  // #Preview'' @ [newline]))
   \<and> fix_preview (''struct A {}'' @ [newline] @ ''  // #Preview'' @ [newline])
      = ''struct A {}'' @ [newline] @ ''  // #Preview'' @ [newline]"
proof -
  have h: "\<forall>line \<in> set (split_nl (''struct A {}'' @ [newline] @ ''  // #Preview'' @ [newline])).
      \<not> is_preview_line line"
    by (simp add: newline_def is_preview_line_def startswith_def strip_def is_space_def)
  from fix_preview_identity [OF h] h show ?thesis unfolding list_all_iff by blast
qed


section \<open>Properties of \<open>remove_method\<close>\<close>

text \<open>When the brace scan breaks, the end index lies after the start, inside the text.\<close>

lemma find_close_bounds:
  "find_close s i bc im = Some e \<Longrightarrow> i < e \<and> e \<le> i + length s"
proof (induction s i bc im rule: find_close.induct)
  case (1 i bc im)
  then show ?case by simp
next
  case (2 char rest i bc im)
  then show ?case by (fastforce split: if_splits)
qed

lemma try_patterns_deletes:
  "try_patterns re_search content pats = Inr r
   \<Longrightarrow> \<exists>i j. i \<le> j \<and> j \<le> length content \<and> r = take i content @ drop j content"
proof (induction pats)
  case Nil
  then have "r = take 0 content @ drop 0 content" by simp
  then show ?case by blast
next
  case (Cons p ps)
  show ?case
  proof (cases "re_search p content")
    case (Inl e)
    with Cons.prems show ?thesis by simp
  next
    case (Inr m)
    show ?thesis
    proof (cases m)
      case None
      with Inr Cons show ?thesis by simp
    next
      case (Some start)
      show ?thesis
      proof (cases "find_close (drop start content) start 0 False")
        case None
        with Inr Some Cons show ?thesis by simp
      next
        case fc: (Some e)
        from find_close_bounds [OF fc] have b: "start < e" "e \<le> start + length (drop start content)"
          by simp_all
        from b have le: "e \<le> length content" by simp
        from Inr Some fc b Cons.prems have "r = take start content @ drop e content" by simp
        with b le show ?thesis by (metis less_imp_le)
      qed
    qed
  qed
qed

lemma try_patterns_no_match:
  "\<forall>p \<in> set pats. re_search p content = Inr None \<Longrightarrow> try_patterns re_search content pats = Inr content"
  by (induction pats) simp_all

lemma try_patterns_returns:
  "\<forall>p \<in> set pats. \<exists>m. re_search p content = Inr m \<Longrightarrow> \<exists>r. try_patterns re_search content pats = Inr r"
proof (induction pats)
  case Nil
  show ?case by simp
next
  case (Cons p ps)
  then obtain m where m: "re_search p content = Inr m" by auto
  from Cons obtain r where r: "try_patterns re_search content ps = Inr r" by auto
  show ?case using m r by (cases m) (simp_all add: Let_def)
qed

text \<open>
  Claim C10. \<open>remove_method\<close> only deletes: whenever it returns, the result is the content
  without one contiguous piece (from index \<open>i\<close> up to index \<open>j\<close>, possibly empty), so it
  is never longer than the content; when no pattern matches, the content comes back
  unchanged; and it returns whenever \<open>re.search\<close> accepts both patterns. This holds for
  every behaviour of \<open>re.search\<close>, so for every method name.
\<close>

theorem remove_method_only_deletes:
  "(remove_method re_search content method_name = Inr r \<longrightarrow>
      (\<exists>i j. i \<le> j \<and> j \<le> length content \<and> r = take i content @ drop j content)
      \<and> length r \<le> length content)
   \<and> ((\<forall>p \<in> set (patterns method_name). re_search p content = Inr None) \<longrightarrow>
      remove_method re_search content method_name = Inr content)
   \<and> ((\<forall>p \<in> set (patterns method_name). \<exists>m. re_search p content = Inr m) \<longrightarrow>
      (\<exists>r'. remove_method re_search content method_name = Inr r'))"
proof (intro conjI impI)
  assume ret: "remove_method re_search content method_name = Inr r"
  then obtain i j where ij: "i \<le> j" "j \<le> length content" "r = take i content @ drop j content"
    unfolding remove_method_def using try_patterns_deletes by blast
  then show "\<exists>i j. i \<le> j \<and> j \<le> length content \<and> r = take i content @ drop j content"
    by blast
  from ij show "length r \<le> length content" by simp
next
  assume "\<forall>p \<in> set (patterns method_name). re_search p content = Inr None"
  then show "remove_method re_search content method_name = Inr content"
    unfolding remove_method_def by (rule try_patterns_no_match)
next
  assume "\<forall>p \<in> set (patterns method_name). \<exists>m. re_search p content = Inr m"
  then show "\<exists>r'. remove_method re_search content method_name = Inr r'"
    unfolding remove_method_def by (rule try_patterns_returns)
qed

text \<open>
  The witness removes \<open>foo\<close> from a small Swift text, and looks for \<open>bar\<close>, which the
  text does not define.
\<close>

theorem remove_method_only_deletes_witness:
  "remove_method re_search_literal swift_sample ''foo'' = Inr (''struct V {'' @ [newline] @ ''}'')
   \<and> (\<exists>i j. i \<le> j \<and> j \<le> length swift_sample
         \<and> ''struct V {'' @ [newline] @ ''}'' = take i swift_sample @ drop j swift_sample)
   \<and> length (''struct V {'' @ [newline] @ ''}'') \<le> length swift_sample
   \<and> list_all (\<lambda>p. re_search_literal p swift_sample = Inr None) (patterns ''bar'')
   \<and> remove_method re_search_literal swift_sample ''bar'' = Inr swift_sample"
proof -
  have foo: "remove_method re_search_literal swift_sample ''foo''
      = Inr (''struct V {'' @ [newline] @ ''}'')"
    by code_simp
  have bar: "list_all (\<lambda>p. re_search_literal p swift_sample = Inr None) (patterns ''bar'')"
    by code_simp
  then have bar': "\<forall>p \<in> set (patterns ''bar''). re_search_literal p swift_sample = Inr None"
    by (simp add: list_all_iff)
  from remove_method_only_deletes
         [of re_search_literal swift_sample "''foo''" "''struct V {'' @ [newline] @ ''}''"]
       remove_method_only_deletes [of re_search_literal swift_sample "''bar''" "[]"]
       foo bar bar'
  show ?thesis by blast
qed


section \<open>Properties of \<open>contrast_ratio\<close>\<close>

text \<open>A hexadecimal digit is none of the characters that \<open>int\<close> and \<open>lstrip\<close> treat specially.\<close>

lemma hex_digit_not_special:
  assumes "hex_digit c \<noteq> None"
  shows "c \<noteq> CHR ''#''" "c \<noteq> CHR ''+''" "c \<noteq> CHR ''-''" "c \<noteq> CHR ''_''"
    "c \<noteq> CHR ''x''" "c \<noteq> CHR ''X''" "\<not> is_space c"
  using assms by (auto simp: hex_digit_def is_space_def Let_def split: if_splits)

lemma strip_two_digits:
  assumes "hex_digit a \<noteq> None" "hex_digit b \<noteq> None"
  shows "strip [a, b] = [a, b]"
  using hex_digit_not_special(7) [OF assms(1)] hex_digit_not_special(7) [OF assms(2)]
  by (simp add: strip_def)

text \<open>Two hexadecimal digits are read as the number they write.\<close>

lemma py_int16_two_digits:
  assumes a: "hex_digit a = Some x" and b: "hex_digit b = Some y"
  shows "py_int16 [a, b] = Inr (16 * x + y)"
proof -
  have a': "hex_digit a \<noteq> None" and b': "hex_digit b \<noteq> None" using a b by simp_all
  note na = hex_digit_not_special [OF a'] and nb = hex_digit_not_special [OF b']
  have s: "strip [a, b] = [a, b]" by (rule strip_two_digits [OF a' b'])
  show ?thesis
    unfolding py_int16_def s using na nb a b
    by (simp add: startswith_def Let_def)
qed

text \<open>A colour of six hexadecimal digits is read without an exception.\<close>

lemma hex_to_rgb_hex6:
  assumes "is_hex6 s"
  shows "\<exists>r g b. hex_to_rgb s = Inr (r, g, b)"
proof -
  from assms have len: "length s = 6" and dig: "list_all (\<lambda>c. hex_digit c \<noteq> None) s"
    by (simp_all add: is_hex6_def)
  from len obtain c1 c2 c3 c4 c5 c6 where s: "s = [c1, c2, c3, c4, c5, c6]"
    by (auto simp: length_Suc_conv eval_nat_numeral)
  from dig s obtain v1 v2 v3 v4 v5 v6 where v:
    "hex_digit c1 = Some v1" "hex_digit c2 = Some v2" "hex_digit c3 = Some v3"
    "hex_digit c4 = Some v4" "hex_digit c5 = Some v5" "hex_digit c6 = Some v6"
    by auto
  have "c1 \<noteq> CHR ''#''" using hex_digit_not_special(1) [of c1] v(1) by simp
  then have h: "dropWhile (\<lambda>c. c = CHR ''#'') s = s" by (simp add: s)
  show ?thesis
    unfolding hex_to_rgb_def h
    by (simp add: s Let_def py_int16_two_digits [OF v(1) v(2)]
          py_int16_two_digits [OF v(3) v(4)] py_int16_two_digits [OF v(5) v(6)])
qed

lemma py_max_commute: "py_max a b = py_max b (a :: 'f::linorder)"
  by (auto simp: py_max_def)

lemma py_min_commute: "py_min a b = py_min b (a :: 'f::linorder)"
  by (auto simp: py_min_def)

text \<open>
  Outside the claim's colours the order of the arguments can show: the exception raised is
  that of the first colour.
\<close>

lemma contrast_ratio_error_order:
  "contrast_ratio fa ''zz'' ''yy'' \<noteq> contrast_ratio fa ''yy'' ''zz''"
  by (simp add: contrast_ratio_def hex_to_rgb_def py_int16_def strip_def is_space_def
        startswith_def hex_digit_def)

text \<open>
  Claim C8. \<open>contrast_ratio\<close> is commutative on colours of six hexadecimal digits: the two
  luminances are ordered by \<open>max\<close> and \<open>min\<close> before the division. This holds for every
  float arithmetic, whatever its rounding.
\<close>

theorem contrast_ratio_commutative:
  assumes "is_hex6 c1" and "is_hex6 c2"
  shows "contrast_ratio fa c1 c2 = contrast_ratio fa c2 c1"
proof -
  from hex_to_rgb_hex6 [OF assms(1)] obtain r1 g1 b1 where 1: "hex_to_rgb c1 = Inr (r1, g1, b1)"
    by blast
  from hex_to_rgb_hex6 [OF assms(2)] obtain r2 g2 b2 where 2: "hex_to_rgb c2 = Inr (r2, g2, b2)"
    by blast
  show ?thesis
    unfolding contrast_ratio_def 1 2
    by (simp add: Let_def py_max_commute [of "luminance fa r1 g1 b1"]
          py_min_commute [of "luminance fa r1 g1 b1"])
qed

theorem contrast_ratio_commutative_witness:
  "is_hex6 ''FFFFFF'' \<and> is_hex6 ''0D0D0D''
   \<and> contrast_ratio exact_arith ''FFFFFF'' ''0D0D0D'' = contrast_ratio exact_arith ''0D0D0D'' ''FFFFFF''"
proof -
  have a: "is_hex6 ''FFFFFF''" by (simp add: is_hex6_def hex_digit_def)
  have b: "is_hex6 ''0D0D0D''" by (simp add: is_hex6_def hex_digit_def)
  from contrast_ratio_commutative [OF a b, of exact_arith] a b show ?thesis by simp
qed


section \<open>Properties of the Amount Normalizer\<close>

text \<open>Reading a digit that was written gives the digit back.\<close>

lemma digit_of_char_of_digit:
  assumes "v < 16"
  shows "digit_of_char (char_of_digit v) = Some v"
proof -
  from assms have "v = 0 \<or> v = 1 \<or> v = 2 \<or> v = 3 \<or> v = 4 \<or> v = 5 \<or> v = 6 \<or> v = 7
      \<or> v = 8 \<or> v = 9 \<or> v = 10 \<or> v = 11 \<or> v = 12 \<or> v = 13 \<or> v = 14 \<or> v = 15"
    by arith
  then show ?thesis
    by (elim disjE) (simp_all add: digit_of_char_def char_of_digit_def)
qed

lemma read_digits_append:
  "read_digits b (xs @ ys) acc =
     (case read_digits b xs acc of None \<Rightarrow> None | Some a \<Rightarrow> read_digits b ys a)"
  by (induction xs arbitrary: acc) (auto split: option.splits)

lemma write_digits_nonempty: "write_digits b n \<noteq> []"
  by (subst write_digits.simps) simp

text \<open>Reading the digits of a number written in base two to sixteen gives the number.\<close>

lemma read_write_digits:
  "2 \<le> b \<Longrightarrow> b \<le> 16 \<Longrightarrow> read_digits b (write_digits b n) 0 = Some n"
proof (induction b n rule: write_digits.induct)
  case (1 base n)
  show ?case
  proof (cases "n < base")
    case True
    with "1.prems" have "n < 16" by simp
    with True show ?thesis
      by (subst write_digits.simps) (simp add: digit_of_char_of_digit)
  next
    case False
    with "1.prems" have nb: "\<not> (n < base \<or> base < 2)" by simp
    have ih: "read_digits base (write_digits base (n div base)) 0 = Some (n div base)"
      using "1.IH" [OF nb "1.prems"] .
    have m: "n mod base < 16" "n mod base < base"
      using "1.prems" by (auto intro: less_le_trans [of _ base])
    have "write_digits base n = write_digits base (n div base) @ [char_of_digit (n mod base)]"
      using nb by (subst write_digits.simps) simp
    then show ?thesis
      using ih m by (simp add: read_digits_append digit_of_char_of_digit)
  qed
qed

lemma parse_write_digits:
  "2 \<le> b \<Longrightarrow> b \<le> 16 \<Longrightarrow> parse_number b (write_digits b n) = Some n"
  by (simp add: parse_number_def write_digits_nonempty read_write_digits)

text \<open>A decimal digit is neither the \<open>x\<close> of the hexadecimal prefix nor the point.\<close>

lemma char_of_digit_decimal:
  assumes "v < 10"
  shows "char_of_digit v \<noteq> CHR ''x''" "char_of_digit v \<noteq> CHR ''.''"
proof -
  have d: "digit_of_char (char_of_digit v) = Some v"
    using assms by (simp add: digit_of_char_of_digit)
  show "char_of_digit v \<noteq> CHR ''x''"
    using d by (auto simp: digit_of_char_def)
  show "char_of_digit v \<noteq> CHR ''.''"
    using d by (auto simp: digit_of_char_def)
qed

lemma write_digits_decimal_chars:
  "c \<in> set (write_digits 10 n) \<Longrightarrow> c \<noteq> CHR ''x'' \<and> c \<noteq> CHR ''.''"
proof (induction "10::nat" n rule: write_digits.induct)
  case (1 n)
  show ?case
  proof (cases "n < 10")
    case True
    with "1.prems" have "c = char_of_digit n"
      by (subst (asm) write_digits.simps) simp
    with True char_of_digit_decimal [of n] show ?thesis by simp
  next
    case False
    then have nb: "\<not> (n < 10 \<or> (10::nat) < 2)" by simp
    have w: "write_digits 10 n = write_digits 10 (n div 10) @ [char_of_digit (n mod 10)]"
      using nb by (subst write_digits.simps) simp
    from "1.prems" w have "c \<in> set (write_digits 10 (n div 10)) \<or> c = char_of_digit (n mod 10)"
      by auto
    then show ?thesis
    proof
      assume "c \<in> set (write_digits 10 (n div 10))"
      then show ?thesis using "1.hyps" [OF nb] by simp
    next
      assume "c = char_of_digit (n mod 10)"
      then show ?thesis using char_of_digit_decimal [of "n mod 10"] by simp
    qed
  qed
qed

lemma write_digits_decimal_not_hex_prefix: "\<not> startswith (write_digits 10 n) ''0x''"
proof
  assume "startswith (write_digits 10 n) ''0x''"
  then have t: "take (length ''0x'') (write_digits 10 n) = ''0x''"
    unfolding startswith_def .
  have "CHR ''x'' \<in> set (take (length ''0x'') (write_digits 10 n))" unfolding t by simp
  then have "CHR ''x'' \<in> set (write_digits 10 n)" by (rule in_set_takeD)
  with write_digits_decimal_chars show False by blast
qed

text \<open>The three ways of writing a number as a raw amount are read as that number.\<close>

lemma parse_raw_integer: "parse_raw (RawInteger (int n)) = Inr n"
  by (simp add: parse_raw_def)

lemma parse_raw_decimal: "parse_raw (RawString (write_digits 10 n)) = Inr n"
  by (simp add: parse_raw_def write_digits_decimal_not_hex_prefix parse_write_digits)

lemma parse_raw_hex: "parse_raw (RawString (''0x'' @ write_digits 16 n)) = Inr n"
  by (simp add: parse_raw_def startswith_def parse_write_digits)


text \<open>The value of \<open>toDecimal\<close> on a raw amount that is read as \<open>n\<close>.\<close>

lemma dec_value_toDecimal:
  "parse_raw raw = Inr n \<Longrightarrow>
   map_sum id dec_value (toDecimal raw decimals) = Inr (of_nat n / 10 ^ decimals)"
  by (simp add: toDecimal_def dec_value_def)

lemma parse_raw_example: "parse_raw (RawString ''0x2540be400'') = Inr 10000000000"
  by (simp add: parse_raw_def startswith_def parse_number_def digit_of_char_def)

text \<open>
  Claim C5. \<open>toDecimal\<close> of the hexadecimal string \<open>0x2540be400\<close> with nine decimals is
  exactly ten; and for every number \<open>n\<close>, given as an integer, as a decimal string or as a
  hexadecimal string, and every number of decimals, the value of \<open>toDecimal\<close> is exactly
  \<open>n / 10 ^ decimals\<close>, a rational number with no rounding at any size.
\<close>

theorem toDecimal_exact:
  "map_sum id dec_value (toDecimal (RawString ''0x2540be400'') 9) = Inr 10
   \<and> map_sum id dec_value (toDecimal (RawInteger (int n)) decimals)
       = Inr (of_nat n / 10 ^ decimals)
   \<and> map_sum id dec_value (toDecimal (RawString (write_digits 10 n)) decimals)
       = Inr (of_nat n / 10 ^ decimals)
   \<and> map_sum id dec_value (toDecimal (RawString (''0x'' @ write_digits 16 n)) decimals)
       = Inr (of_nat n / 10 ^ decimals)"
proof (intro conjI)
  show "map_sum id dec_value (toDecimal (RawString ''0x2540be400'') 9) = Inr 10"
    using dec_value_toDecimal [OF parse_raw_example, of 9] by simp
  show "map_sum id dec_value (toDecimal (RawInteger (int n)) decimals)
       = Inr (of_nat n / 10 ^ decimals)"
    by (rule dec_value_toDecimal [OF parse_raw_integer])
  show "map_sum id dec_value (toDecimal (RawString (write_digits 10 n)) decimals)
       = Inr (of_nat n / 10 ^ decimals)"
    by (rule dec_value_toDecimal [OF parse_raw_decimal])
  show "map_sum id dec_value (toDecimal (RawString (''0x'' @ write_digits 16 n)) decimals)
       = Inr (of_nat n / 10 ^ decimals)"
    by (rule dec_value_toDecimal [OF parse_raw_hex])
qed

text \<open>An amount beyond the integers a binary double holds exactly, kept digit for digit.\<close>

theorem toDecimal_exact_witness:
  "map_sum id dec_value (toDecimal (RawInteger 18446744073709551617) 18)
     = Inr (18446744073709551617 / 10 ^ 18)"
  using toDecimal_exact [of 18446744073709551617 18] by simp


subsection \<open>Round trip\<close>

text \<open>\<open>fromDecimal\<close> gives back the integer that \<open>toDecimal\<close> read.\<close>

lemma fromDecimal_toDecimal:
  "toDecimal raw decimals = Inr d \<Longrightarrow> parse_raw raw = Inr (fromDecimal d decimals)"
  by (auto simp: toDecimal_def fromDecimal_def split: sum.splits)

text \<open>\<open>toDecimal\<close> gives back an amount that has no more than \<open>decimals\<close> fractional digits.\<close>

lemma toDecimal_fromDecimal:
  assumes "scale d \<le> decimals"
  shows "map_sum id dec_value (toDecimal (RawInteger (int (fromDecimal d decimals))) decimals)
     = Inr (dec_value d)"
proof -
  obtain k where k: "decimals = scale d + k" using assms by (auto simp: le_iff_add)
  have f: "fromDecimal d decimals = unscaled d * 10 ^ k"
    by (simp add: fromDecimal_def k power_add)
  have "(of_nat (unscaled d * 10 ^ k) :: rat) / 10 ^ decimals = of_nat (unscaled d) / 10 ^ scale d"
    by (simp add: k power_add)
  then show ?thesis
    using dec_value_toDecimal [OF parse_raw_integer, of "fromDecimal d decimals" decimals]
    by (simp add: f dec_value_def)
qed

lemma toDecimal_parsed:
  "parse_raw raw = Inr n \<Longrightarrow>
   \<exists>d. toDecimal raw decimals = Inr d \<and> fromDecimal d decimals = n"
  by (simp add: toDecimal_def fromDecimal_def)

text \<open>
  Claim C6. \<open>toDecimal\<close> and \<open>fromDecimal\<close> are exact inverses at full precision. Whatever
  raw amount \<open>toDecimal\<close> accepts, \<open>fromDecimal\<close> of the result with the same number of
  decimals is the integer the raw amount stands for; it is \<open>n\<close> for the number \<open>n\<close> given
  as an integer, as a decimal string or as a hexadecimal string. In the other direction,
  \<open>toDecimal\<close> of \<open>fromDecimal v decimals\<close> has the value of \<open>v\<close> when \<open>v\<close> has at most
  \<open>decimals\<close> fractional digits.
\<close>

theorem toDecimal_fromDecimal_roundtrip:
  "(toDecimal raw decimals = Inr d \<longrightarrow> parse_raw raw = Inr (fromDecimal d decimals))
   \<and> (\<exists>d. toDecimal (RawInteger (int n)) decimals = Inr d \<and> fromDecimal d decimals = n)
   \<and> (\<exists>d. toDecimal (RawString (write_digits 10 n)) decimals = Inr d
          \<and> fromDecimal d decimals = n)
   \<and> (\<exists>d. toDecimal (RawString (''0x'' @ write_digits 16 n)) decimals = Inr d
          \<and> fromDecimal d decimals = n)
   \<and> (scale v \<le> decimals \<longrightarrow>
        map_sum id dec_value (toDecimal (RawInteger (int (fromDecimal v decimals))) decimals)
          = Inr (dec_value v))"
proof (intro conjI impI)
  assume "toDecimal raw decimals = Inr d"
  then show "parse_raw raw = Inr (fromDecimal d decimals)" by (rule fromDecimal_toDecimal)
next
  show "\<exists>d. toDecimal (RawInteger (int n)) decimals = Inr d \<and> fromDecimal d decimals = n"
    by (rule toDecimal_parsed [OF parse_raw_integer])
next
  show "\<exists>d. toDecimal (RawString (write_digits 10 n)) decimals = Inr d
          \<and> fromDecimal d decimals = n"
    by (rule toDecimal_parsed [OF parse_raw_decimal])
next
  show "\<exists>d. toDecimal (RawString (''0x'' @ write_digits 16 n)) decimals = Inr d
          \<and> fromDecimal d decimals = n"
    by (rule toDecimal_parsed [OF parse_raw_hex])
next
  assume "scale v \<le> decimals"
  then show "map_sum id dec_value (toDecimal (RawInteger (int (fromDecimal v decimals))) decimals)
          = Inr (dec_value v)"
    by (rule toDecimal_fromDecimal)
qed

text \<open>
  The example of the specification: the raw string \<open>10000000000\<close> with eight decimals is
  the amount written \<open>100.00000000\<close>, and \<open>fromDecimal\<close> gives the raw integer back.
\<close>

lemma fixed_digits_numeral:
  "fixed_digits (numeral k) n
     = fixed_digits (pred_numeral k) (n div 10) @ [char_of_digit (n mod 10)]"
  by (simp only: numeral_eq_Suc [of k] fixed_digits.simps)

theorem toDecimal_fromDecimal_roundtrip_witness:
  "toDecimal (RawString ''10000000000'') 8 = Inr \<lparr>unscaled = 10000000000, scale = 8\<rparr>
   \<and> formatAmount \<lparr>unscaled = 10000000000, scale = 8\<rparr> 8 8 = ''100.00000000''
   \<and> Inr (fromDecimal \<lparr>unscaled = 10000000000, scale = 8\<rparr> 8)
       = parse_raw (RawString ''10000000000'')
   \<and> parse_raw (RawString ''10000000000'') = Inr 10000000000"
proof -
  have p: "parse_raw (RawString ''10000000000'') = Inr 10000000000"
    by (simp add: parse_raw_def startswith_def parse_number_def digit_of_char_def)
  have t: "toDecimal (RawString ''10000000000'') 8
      = Inr \<lparr>unscaled = 10000000000, scale = 8\<rparr>"
    by (simp add: toDecimal_def p)
  have f: "formatAmount \<lparr>unscaled = 10000000000, scale = 8\<rparr> 8 8 = ''100.00000000''"
    by (simp add: formatAmount_def fromDecimal_def write_digits.simps [of 10] char_of_digit_def
          fixed_digits_numeral)
  from toDecimal_fromDecimal_roundtrip
         [of "RawString ''10000000000''" 8 "\<lparr>unscaled = 10000000000, scale = 8\<rparr>"] t
  have "parse_raw (RawString ''10000000000'')
      = Inr (fromDecimal \<lparr>unscaled = 10000000000, scale = 8\<rparr> 8)"
    by blast
  with p t f show ?thesis by simp
qed


subsection \<open>Formatting\<close>

text \<open>Integer division lies within one unit below the exact quotient.\<close>

lemma of_nat_div_bounds:
  assumes "0 < b"
  shows "(of_nat (a div b) :: rat) \<le> of_nat a / of_nat b"
    and "(of_nat a :: rat) / of_nat b < of_nat (a div b + 1)"
proof -
  have pos: "(0::rat) < of_nat b" using assms by simp
  have "a div b * b \<le> a" by simp
  then have "(of_nat (a div b * b) :: rat) \<le> of_nat a" by (simp only: of_nat_le_iff)
  then have "(of_nat (a div b) :: rat) * of_nat b \<le> of_nat a" by simp
  then show "(of_nat (a div b) :: rat) \<le> of_nat a / of_nat b"
    using pos by (simp add: pos_le_divide_eq)
  have "a < (a div b + 1) * b" using assms by (simp add: dividend_less_div_times)
  then have "(of_nat a :: rat) < of_nat ((a div b + 1) * b)" by (simp only: of_nat_less_iff)
  then have "(of_nat a :: rat) < of_nat (a div b + 1) * of_nat b" by (simp only: of_nat_mult)
  then show "(of_nat a :: rat) / of_nat b < of_nat (a div b + 1)"
    using pos by (simp add: pos_divide_less_eq)
qed

text \<open>\<open>fromDecimal\<close> cuts: it never exceeds the amount, and misses it by less than one unit.\<close>

lemma fromDecimal_truncates:
  "of_nat (fromDecimal v k) / 10 ^ k \<le> dec_value v"
  "dec_value v < of_nat (fromDecimal v k + 1) / 10 ^ k"
proof -
  let ?a = "unscaled v * 10 ^ k" and ?b = "(10::nat) ^ scale v"
  have b: "0 < ?b" by simp
  have v: "dec_value v = (of_nat ?a / of_nat ?b) / 10 ^ k"
    by (simp add: dec_value_def)
  have f: "fromDecimal v k = ?a div ?b" by (simp add: fromDecimal_def)
  have p: "(0::rat) < 10 ^ k" by simp
  show "of_nat (fromDecimal v k) / 10 ^ k \<le> dec_value v"
    unfolding v f using of_nat_div_bounds(1) [OF b, of ?a] p
    by (simp only: divide_le_cancel) simp
  show "dec_value v < of_nat (fromDecimal v k + 1) / 10 ^ k"
    unfolding v f using of_nat_div_bounds(2) [OF b, of ?a] p
    by (simp only: divide_less_cancel) simp
qed

lemma length_fixed_digits: "length (fixed_digits k n) = k"
  by (induction k arbitrary: n) simp_all

lemma read_fixed_digits: "read_digits 10 (fixed_digits k n) 0 = Some (n mod 10 ^ k)"
proof (induction k arbitrary: n)
  case 0
  show ?case by simp
next
  case (Suc k)
  have d: "digit_of_char (char_of_digit (n mod 10)) = Some (n mod 10)"
    by (simp add: digit_of_char_of_digit)
  have "10 * (n div 10 mod 10 ^ k) + n mod 10 = n mod (10 * 10 ^ k)"
    by (simp add: mod_mult2_eq)
  then show ?case
    using Suc [of "n div 10"] d by (simp add: read_digits_append)
qed

lemma takeWhile_point:
  "CHR ''.'' \<notin> set xs \<Longrightarrow> takeWhile (\<lambda>c. c \<noteq> CHR ''.'') (xs @ CHR ''.'' # ys) = xs"
  "CHR ''.'' \<notin> set xs \<Longrightarrow> dropWhile (\<lambda>c. c \<noteq> CHR ''.'') (xs @ CHR ''.'' # ys) = CHR ''.'' # ys"
  "CHR ''.'' \<notin> set xs \<Longrightarrow> takeWhile (\<lambda>c. c \<noteq> CHR ''.'') xs = xs"
  "CHR ''.'' \<notin> set xs \<Longrightarrow> dropWhile (\<lambda>c. c \<noteq> CHR ''.'') xs = []"
  by (induction xs) auto

lemma write_digits_no_point: "CHR ''.'' \<notin> set (write_digits 10 n)"
  using write_digits_decimal_chars by blast

text \<open>The digits that \<open>formatAmount\<close> writes denote the cut amount.\<close>

lemma denoted_render:
  "denoted (write_digits 10 (n div 10 ^ k)
             @ (if k = 0 then [] else CHR ''.'' # fixed_digits k (n mod 10 ^ k)))
     = Some (of_nat n / 10 ^ k)"
proof (cases "k = 0")
  case True
  then show ?thesis
    by (simp add: denoted_def takeWhile_point write_digits_no_point parse_write_digits)
next
  case False
  let ?I = "write_digits 10 (n div 10 ^ k)" and ?F = "fixed_digits k (n mod 10 ^ k)"
  have ne: "?F \<noteq> []"
    using False length_fixed_digits [of k "n mod 10 ^ k"] by auto
  have pf: "parse_number 10 ?F = Some (n mod 10 ^ k)"
    using ne by (simp add: parse_number_def read_fixed_digits)
  have "(of_nat (n div 10 ^ k * 10 ^ k + n mod 10 ^ k) :: rat) = of_nat n"
    by (simp only: div_mult_mod_eq)
  then have e: "(of_nat (n div 10 ^ k) :: rat) * 10 ^ k + of_nat (n mod 10 ^ k) = of_nat n"
    by simp
  have val: "(of_nat (n div 10 ^ k) :: rat) + of_nat (n mod 10 ^ k) / 10 ^ k
      = of_nat n / 10 ^ k"
    unfolding e [symmetric] by (simp add: add_divide_distrib)
  have "denoted (?I @ CHR ''.'' # ?F) = Some (of_nat n / 10 ^ k)"
    using val
    by (simp add: denoted_def takeWhile_point write_digits_no_point parse_write_digits pf
          length_fixed_digits)
  with False show ?thesis by simp
qed

lemma denoted_formatAmount:
  "denoted (formatAmount v decimals maxFractionDigits)
     = Some (of_nat (fromDecimal v (min decimals maxFractionDigits))
               / 10 ^ min decimals maxFractionDigits)"
  unfolding formatAmount_def Let_def by (rule denoted_render)

text \<open>
  Claim C7. The formatting functions round toward zero and never up: for every amount and
  every number of fraction digits, \<open>fromDecimal\<close> gives the largest multiple of the unit
  that does not exceed the amount, and the string \<open>formatAmount\<close> renders denotes a
  number that is not greater than the amount and less than one unit of the last digit
  below it.
\<close>

theorem formatting_truncates:
  "of_nat (fromDecimal v k) / 10 ^ k \<le> dec_value v
   \<and> dec_value v < of_nat (fromDecimal v k + 1) / 10 ^ k
   \<and> (\<exists>r. denoted (formatAmount v decimals maxFractionDigits) = Some r
          \<and> r \<le> dec_value v
          \<and> dec_value v < r + 1 / 10 ^ min decimals maxFractionDigits)"
proof (intro conjI)
  show "of_nat (fromDecimal v k) / 10 ^ k \<le> dec_value v"
    by (rule fromDecimal_truncates)
  show "dec_value v < of_nat (fromDecimal v k + 1) / 10 ^ k"
    by (rule fromDecimal_truncates)
  let ?m = "min decimals maxFractionDigits"
  let ?r = "(of_nat (fromDecimal v ?m) :: rat) / 10 ^ ?m"
  have "dec_value v < of_nat (fromDecimal v ?m + 1) / 10 ^ ?m"
    by (rule fromDecimal_truncates)
  then have "dec_value v < ?r + 1 / 10 ^ ?m"
    by (simp add: add_divide_distrib)
  moreover have "?r \<le> dec_value v" by (rule fromDecimal_truncates)
  ultimately show "\<exists>r. denoted (formatAmount v decimals maxFractionDigits) = Some r
          \<and> r \<le> dec_value v \<and> dec_value v < r + 1 / 10 ^ ?m"
    using denoted_formatAmount [of v decimals maxFractionDigits] by blast
qed

text \<open>The amount 1.23456789 shown with two fraction digits reads 1.23, not 1.24.\<close>

theorem formatting_truncates_witness:
  "formatAmount \<lparr>unscaled = 123456789, scale = 8\<rparr> 8 2 = ''1.23''
   \<and> denoted ''1.23'' = Some (123 / 100)
   \<and> (123 / 100 :: rat) \<le> dec_value \<lparr>unscaled = 123456789, scale = 8\<rparr>"
proof -
  have f: "formatAmount \<lparr>unscaled = 123456789, scale = 8\<rparr> 8 2 = ''1.23''"
    by (simp add: formatAmount_def fromDecimal_def write_digits.simps [of 10] char_of_digit_def
          fixed_digits_numeral)
  have d: "denoted ''1.23'' = Some (123 / 100)"
    by (simp add: denoted_def parse_number_def digit_of_char_def)
  from formatting_truncates [of "\<lparr>unscaled = 123456789, scale = 8\<rparr>" 2 8 2]
  obtain r where "denoted (formatAmount \<lparr>unscaled = 123456789, scale = 8\<rparr> 8 2) = Some r"
    and "r \<le> dec_value \<lparr>unscaled = 123456789, scale = 8\<rparr>"
    by blast
  with f d show ?thesis by simp
qed


end
